theory Spec2Isabelle
  imports Main "HOL-Library.Sublist"
begin

section \<open>htmlgen: node model, renderer and style registry\<close>

text \<open>
  A shallow embedding of \<^verbatim>\<open>src/htmlgen/__init__.py\<close>. Python strings are modelled as
  \<^typ>\<open>string\<close>, one \<^typ>\<open>char\<close> per code point (so the model covers code points below 256).
  Insertion-ordered dictionaries are association lists with distinct keys, in iteration
  order. Calls to the logger do not influence any returned value; they are modelled only
  where a claim speaks about them (the duplicate-name warning of \<^verbatim>\<open>Registry.style\<close>).
\<close>

subsection \<open>Python string helpers\<close>

text \<open>\<^verbatim>\<open>str.replace(old, new)\<close> for a one-character \<^verbatim>\<open>old\<close>.\<close>

definition str_replace :: "char \<Rightarrow> string \<Rightarrow> string \<Rightarrow> string" where
  "str_replace old new s = concat (map (\<lambda>c. if c = old then new else [c]) s)"

text \<open>\<^verbatim>\<open>sep.join(xs)\<close>.\<close>

fun join :: "string \<Rightarrow> string list \<Rightarrow> string" where
  "join sep [] = []"
| "join sep [x] = x"
| "join sep (x # y # ys) = x @ sep @ join sep (y # ys)"

text \<open>
  \<^verbatim>\<open>html.escape(s)\<close> of the standard library, with its default \<^verbatim>\<open>quote=True\<close>: five
  replacements one after the other, the ampersand first.
\<close>

definition html_escape :: "string \<Rightarrow> string" where
  \<open>html_escape s0 =
     (let s = str_replace (CHR ''&'') ''&amp;'' s0;
          s = str_replace (CHR ''<'') ''&lt;'' s;
          s = str_replace (CHR ''>'') ''&gt;'' s;
          s = str_replace (CHR ''"'') ''&quot;'' s;
          s = str_replace (CHR 0x27) ''&#x27;'' s
      in s)\<close>

subsection \<open>Node model\<close>

text \<open>
  An attribute value is a string, a boolean or \<^verbatim>\<open>None\<close>
  (\<^verbatim>\<open>Attributes = Mapping[str, str | bool | None]\<close>).
\<close>

datatype attr_value = AStr string | ABool bool | ANone

text \<open>
  The fields of the dataclass \<^verbatim>\<open>Element\<close>. The class set is kept as the list of its
  members in iteration order, which is how \<^verbatim>\<open>render_attributes\<close> consumes it.
\<close>

datatype 'n elem =
  Elem (type: string) (attributes: "(string \<times> attr_value) list")
       (children: "'n list") (classes: "string list")

datatype node = HtmlStr string | Element "node elem" | HtmlSequence "node list"

text \<open>\<^verbatim>\<open>Contents = HtmlRenderable | str\<close>, the argument type of \<^verbatim>\<open>containing\<close>.\<close>

datatype contents = Str string | Renderable node

text \<open>\<^verbatim>\<open>Element(type)\<close>: every other field takes its default, and \<^verbatim>\<open>__post_init__\<close>
  finds no \<^verbatim>\<open>class\<close> attribute.\<close>

definition new_Element :: "string \<Rightarrow> node elem" where
  "new_Element t = Elem t [] [] []"

definition NO_INDENT_ELEMENTS :: "string set" where
  "NO_INDENT_ELEMENTS = set [''pre'']"

definition VOID_ELEMENTS :: "string set" where
  "VOID_ELEMENTS = set [''area'', ''base'', ''br'', ''col'', ''embed'', ''hr'', ''img'',
     ''input'', ''link'', ''meta'', ''source'', ''track'', ''wbr'']"

definition void :: "'n elem \<Rightarrow> bool" where
  "void e = (type e \<in> VOID_ELEMENTS)"

fun must_be_inline :: "node \<Rightarrow> bool" where
  "must_be_inline (HtmlStr s) = True"
| "must_be_inline (Element e) = False"
| "must_be_inline (HtmlSequence cs) = list_ex must_be_inline cs"

text \<open>\<^verbatim>\<open>containing\<close> extends the child list, wrapping bare strings as text nodes.\<close>

definition containing :: "node elem \<Rightarrow> contents list \<Rightarrow> node elem" where
  "containing e items =
     Elem (type e) (attributes e)
       (children e @ map (\<lambda>i. case i of Str s \<Rightarrow> HtmlStr s | Renderable n \<Rightarrow> n) items)
       (classes e)"

text \<open>\<^verbatim>\<open>HtmlStr.escape\<close>.\<close>

definition HtmlStr_escape :: "string \<Rightarrow> node" where
  "HtmlStr_escape s = HtmlStr (html_escape s)"

subsection \<open>Renderer\<close>

text \<open>
  \<^verbatim>\<open>render_attributes\<close>: the list \<^verbatim>\<open>rendered_attrs\<close> is built by appending, first the
  class attribute, then one entry per attribute that is neither \<^verbatim>\<open>False\<close> nor
  \<^verbatim>\<open>None\<close>; at the end every entry is prefixed with a space.
\<close>

definition render_attributes :: "(string \<times> attr_value) list \<Rightarrow> string list \<Rightarrow> string" where
  \<open>render_attributes attrs cls =
     (let rendered_attrs = [];
          rendered_attrs =
            (if cls \<noteq> []
             then (let class_value = join '' '' (map html_escape cls)
                   in rendered_attrs @ [''class="'' @ class_value @ ''"''])
             else rendered_attrs);
          rendered_attrs =
            fold (\<lambda>(name, v) acc.
                    case v of
                      ABool False \<Rightarrow> acc
                    | ANone \<Rightarrow> acc
                    | ABool True \<Rightarrow> acc @ [name]
                    | AStr x \<Rightarrow> acc @ [name @ ''="'' @ html_escape x @ ''"''])
                 attrs rendered_attrs
      in concat (map (\<lambda>r. '' '' @ r) rendered_attrs))\<close>

definition render_tag ::
  "string \<Rightarrow> (string \<times> attr_value) list \<Rightarrow> string list \<Rightarrow> string option \<Rightarrow> string \<Rightarrow> bool
     \<Rightarrow> string" where
  "render_tag t attrs cls cont indent0 inline0 =
     (let (indent, inline) =
            (if t \<in> NO_INDENT_ELEMENTS then ([], True) else (indent0, inline0));
          rendered_attrs = render_attributes attrs cls
      in case cont of
           None \<Rightarrow> indent @ ''<'' @ t @ rendered_attrs @ ''/>''
         | Some c \<Rightarrow>
             (let open_tag = ''<'' @ t @ rendered_attrs @ ''>'';
                  close_tag = ''</'' @ t @ ''>''
              in if inline then indent @ open_tag @ c @ close_tag
                 else indent @ open_tag @ ''\<newline>'' @ c @ ''\<newline>'' @ indent @ close_tag))"

text \<open>
  The three \<^verbatim>\<open>render\<close> methods. In \<^verbatim>\<open>Element.render\<close> the parameter \<^verbatim>\<open>inline\<close> is
  reassigned in the first statement, before it is read.
\<close>

fun render :: "node \<Rightarrow> string \<Rightarrow> bool \<Rightarrow> string" where
  "render (HtmlStr s) indent inline = indent @ s"
| "render (Element (Elem t a cs cl)) indent inline0 =
     (let inline = (must_be_inline (Element (Elem t a cs cl)) \<or> list_ex must_be_inline cs);
          cont =
            (if void (Elem t a cs cl) then None
             else if inline then Some (concat (map (\<lambda>c. render c [] True) cs))
             else Some (join ''\<newline>'' (map (\<lambda>c. render c (indent @ ''  '') False) cs)))
      in render_tag t a cl cont indent inline)"
| "render (HtmlSequence cs) indent inline =
     (if inline then concat (map (\<lambda>c. render c [] True) cs)
      else join ''\<newline>'' (map (\<lambda>c. render c indent False) cs))"

subsection \<open>Data attributes\<close>

datatype error = ValueError string

text \<open>
  \<^verbatim>\<open>DATA_KEY_PATTERN = re.compile("[a-z][a-z-]*")\<close> and its \<^verbatim>\<open>fullmatch\<close>: the whole key
  is one character of the class \<^verbatim>\<open>[a-z]\<close> followed by any number of characters of the
  class \<^verbatim>\<open>[a-z-]\<close>.
\<close>

definition in_a_z :: "char \<Rightarrow> bool" where
  "in_a_z c = ((of_char (CHR ''a'') :: nat) \<le> of_char c \<and> (of_char c :: nat) \<le> of_char (CHR ''z''))"

definition DATA_KEY_PATTERN_fullmatch :: "string \<Rightarrow> bool" where
  "DATA_KEY_PATTERN_fullmatch key =
     (case key of
        [] \<Rightarrow> False
      | c # cs \<Rightarrow> in_a_z c \<and> list_all (\<lambda>d. in_a_z d \<or> d = CHR ''-'') cs)"

text \<open>Assignment \<^verbatim>\<open>d[k] = v\<close> and \<^verbatim>\<open>d.update(pairs)\<close> on an insertion-ordered dictionary.\<close>

fun dict_set :: "('k \<times> 'v) list \<Rightarrow> 'k \<Rightarrow> 'v \<Rightarrow> ('k \<times> 'v) list" where
  "dict_set [] k v = [(k, v)]"
| "dict_set ((k', v') # d) k v = (if k' = k then (k', v) # d else (k', v') # dict_set d k v)"

definition dict_update :: "('k \<times> 'v) list \<Rightarrow> ('k \<times> 'v) list \<Rightarrow> ('k \<times> 'v) list" where
  "dict_update d pairs = fold (\<lambda>(k, v) d'. dict_set d' k v) pairs d"

text \<open>The validation loop of \<^verbatim>\<open>with_data\<close>: the first key that does not match raises.\<close>

fun check_data_keys :: "(string \<times> string) list \<Rightarrow> error option" where
  "check_data_keys [] = None"
| "check_data_keys ((key, v) # rest) =
     (if \<not> DATA_KEY_PATTERN_fullmatch key then Some (ValueError key)
      else check_data_keys rest)"

definition with_data :: "node elem \<Rightarrow> (string \<times> string) list \<Rightarrow> error + node elem" where
  "with_data e data =
     (case check_data_keys data of
        Some err \<Rightarrow> Inl err
      | None \<Rightarrow>
          Inr (Elem (type e)
                 (dict_update (attributes e) (map (\<lambda>(key, v). (''data-'' @ key, AStr v)) data))
                 (children e) (classes e)))"

subsection \<open>Style registry\<close>

text \<open>
  The standard library functions the registry calls. \<^verbatim>\<open>str.splitlines(keepends=True)\<close>
  breaks after every line boundary; \<^verbatim>\<open>str.isspace\<close> and \<^verbatim>\<open>str.strip()\<close> use the
  whitespace characters; both sets are given for code points below 256.
\<close>

definition is_linebreak :: "char \<Rightarrow> bool" where
  "is_linebreak c =
     (c \<in> set [CHR 0x0A, CHR 0x0B, CHR 0x0C, CHR 0x0D, CHR 0x1C, CHR 0x1D, CHR 0x1E, CHR 0x85])"

definition is_space :: "char \<Rightarrow> bool" where
  "is_space c =
     (c \<in> set [CHR 0x09, CHR 0x0A, CHR 0x0B, CHR 0x0C, CHR 0x0D, CHR 0x1C, CHR 0x1D, CHR 0x1E,
                CHR 0x1F, CHR 0x20, CHR 0x85, CHR 0xA0])"

fun splitlines_keepends :: "string \<Rightarrow> string \<Rightarrow> string list" where
  "splitlines_keepends cur [] = (if cur = [] then [] else [cur])"
| "splitlines_keepends cur [c] = [cur @ [c]]"
| "splitlines_keepends cur (c # d # ds) =
     (if c = CHR 0x0D \<and> d = CHR 0x0A then (cur @ [c, d]) # splitlines_keepends [] ds
      else if is_linebreak c then (cur @ [c]) # splitlines_keepends [] (d # ds)
      else splitlines_keepends (cur @ [c]) (d # ds))"

definition strip :: "string \<Rightarrow> string" where
  "strip s = rev (dropWhile is_space (rev (dropWhile is_space s)))"

text \<open>\<^verbatim>\<open>textwrap.indent(text, prefix)\<close>: the prefix goes before every line that is not
  made of whitespace only.\<close>

definition textwrap_indent :: "string \<Rightarrow> string \<Rightarrow> string" where
  "textwrap_indent text pre =
     concat (map (\<lambda>line. if \<not> list_all is_space line then pre @ line else line)
               (splitlines_keepends [] text))"

text \<open>
  \<^verbatim>\<open>textwrap.dedent(text)\<close>, as in CPython 3.11 to 3.13: lines of blanks only are
  emptied, the margin is the common leading run of spaces and tabs of the remaining
  non-empty lines, and the margin is removed from the start of every line that has it.
\<close>

fun split_newline :: "string \<Rightarrow> string \<Rightarrow> string list" where
  "split_newline cur [] = [cur]"
| "split_newline cur (c # cs) =
     (if c = CHR ''\<newline>'' then cur # split_newline [] cs else split_newline (cur @ [c]) cs)"

definition is_blank :: "char \<Rightarrow> bool" where
  "is_blank c = (c = CHR '' '' \<or> c = CHR 0x09)"

fun cut_at_mismatch :: "string \<Rightarrow> string \<Rightarrow> string" where
  "cut_at_mismatch (x # xs) (y # ys) = (if x \<noteq> y then [] else x # cut_at_mismatch xs ys)"
| "cut_at_mismatch [] ys = []"
| "cut_at_mismatch xs [] = xs"

fun margin_step :: "string option \<Rightarrow> string \<Rightarrow> string option" where
  "margin_step None ind = Some ind"
| "margin_step (Some margin) ind =
     (if prefix margin ind then Some margin
      else if prefix ind margin then Some ind
      else Some (cut_at_mismatch margin ind))"

definition dedent :: "string \<Rightarrow> string" where
  "dedent text0 =
     (let lines = map (\<lambda>l. if l \<noteq> [] \<and> list_all is_blank l then [] else l)
                    (split_newline [] text0);
          indents = map (takeWhile is_blank) (filter (\<lambda>l. dropWhile is_blank l \<noteq> []) lines);
          margin = foldl margin_step None indents
      in case margin of
           None \<Rightarrow> join ''\<newline>'' lines
         | Some m \<Rightarrow>
             if m \<noteq> []
             then join ''\<newline>'' (map (\<lambda>l. if prefix m l then drop (length m) l else l) lines)
             else join ''\<newline>'' lines)"

text \<open>\<^verbatim>\<open>str.removesuffix\<close>.\<close>

definition removesuffix :: "string \<Rightarrow> string \<Rightarrow> string" where
  "removesuffix s suf =
     (if suf \<noteq> [] \<and> length suf \<le> length s \<and> drop (length s - length suf) s = suf
      then take (length s - length suf) s else s)"

text \<open>
  The registry holds the dictionary \<^verbatim>\<open>styles\<close>. \<^verbatim>\<open>style r css name\<close> is the effect of
  \<^verbatim>\<open>r.style(css)\<close> applied to a builder function called \<^verbatim>\<open>name\<close>: the warnings it logs
  and the registry afterwards.
\<close>

record registry =
  styles :: "(string \<times> string) list"

datatype log_record = Duplicate_classname string

definition new_Registry :: registry where
  "new_Registry = \<lparr>styles = []\<rparr>"

definition derived_classname :: "string \<Rightarrow> string" where
  "derived_classname func_name = removesuffix (str_replace (CHR ''_'') ''-'' func_name) ''-''"

definition style :: "registry \<Rightarrow> string option \<Rightarrow> string \<Rightarrow> log_record list \<times> registry" where
  "style r css func_name =
     (let classname = derived_classname func_name;
          logged = (if classname \<in> set (map fst (styles r))
                    then [Duplicate_classname classname] else []);
          r' = (case css of
                  None \<Rightarrow> r
                | Some c \<Rightarrow> r\<lparr>styles := dict_set (styles r) classname (strip (dedent c))\<rparr>)
      in (logged, r'))"

definition render_stylesheet :: "registry \<Rightarrow> string" where
  "render_stylesheet r =
     join ''\<newline>''
       (map (\<lambda>(name, body). ''.'' @ name @ '' {\<newline>'' @ textwrap_indent body ''  '' @ ''\<newline>}'')
          (styles r))"

subsection \<open>Reference functions for the serialisation claims\<close>

text \<open>
  The substitution table that the specification expects of the escaping constructor:
  one entity per special character, every other character unchanged.
\<close>

definition entity :: "char \<Rightarrow> string" where
  \<open>entity c =
     (if c = CHR ''&'' then ''&amp;''
      else if c = CHR ''<'' then ''&lt;''
      else if c = CHR ''>'' then ''&gt;''
      else if c = CHR ''"'' then ''&quot;''
      else if c = CHR 0x27 then ''&#x27;''
      else [c])\<close>

text \<open>
  What the specification says each attribute contributes to the output of
  \<^verbatim>\<open>render_attributes\<close>, and what the class set contributes.
\<close>

fun spec_attribute :: "string \<times> attr_value \<Rightarrow> string" where
  \<open>spec_attribute (name, ABool True) = '' '' @ name\<close>
| \<open>spec_attribute (name, ABool False) = []\<close>
| \<open>spec_attribute (name, ANone) = []\<close>
| \<open>spec_attribute (name, AStr x) = '' '' @ name @ ''="'' @ html_escape x @ ''"''\<close>

definition spec_class_attribute :: "string list \<Rightarrow> string" where
  \<open>spec_class_attribute cls =
     (if cls = [] then [] else '' class="'' @ join '' '' (map html_escape cls) @ ''"'')\<close>

text \<open>
  The key pattern in the specification's words: lowercase letters and hyphens only,
  starting with a letter.
\<close>

definition spec_valid_data_key :: "string \<Rightarrow> bool" where
  "spec_valid_data_key key =
     (key \<noteq> [] \<and> list_all (\<lambda>c. in_a_z c \<or> c = CHR ''-'') key \<and> in_a_z (hd key))"

section \<open>Properties\<close>

lemma void_not_no_indent: "t \<in> VOID_ELEMENTS \<Longrightarrow> t \<notin> NO_INDENT_ELEMENTS"
  by (auto simp: VOID_ELEMENTS_def NO_INDENT_ELEMENTS_def)

lemma render_void:
  assumes "t \<in> VOID_ELEMENTS"
  shows "render (Element (Elem t a cs cl)) indent inline =
         indent @ ''<'' @ t @ render_attributes a cl @ ''/>''"
  using assms void_not_no_indent [OF assms]
  by (simp add: render_tag_def void_def)

text \<open>
  Claim C1. An element whose tag is a void element renders as
  \<^verbatim>\<open>indent <tag attrs />\<close>: the output ends with \<^verbatim>\<open>/>\<close> and is the same whatever the
  children are (it equals the output of the element without children, and appending
  children with \<^verbatim>\<open>containing\<close> does not change it), for every indent and inline flag.
\<close>

theorem C1_void_element_render:
  assumes "t \<in> VOID_ELEMENTS"
  shows "render (Element (Elem t a cs cl)) indent inline =
           indent @ ''<'' @ t @ render_attributes a cl @ ''/>''
       \<and> suffix ''/>'' (render (Element (Elem t a cs cl)) indent inline)
       \<and> render (Element (Elem t a cs cl)) indent inline =
           render (Element (Elem t a [] cl)) indent inline'
       \<and> render (Element (containing (Elem t a cs cl) items)) indent inline =
           render (Element (Elem t a cs cl)) indent inline"
proof -
  have shape: "render (Element (Elem t a xs cl)) indent b =
               indent @ ''<'' @ t @ render_attributes a cl @ ''/>''" for xs b
    by (rule render_void [OF assms])
  have ends: "suffix ''/>'' (indent @ ''<'' @ t @ render_attributes a cl @ ''/>'')"
    unfolding suffix_def by (metis append.assoc)
  have appended: "render (Element (containing (Elem t a cs cl) items)) indent inline =
                  indent @ ''<'' @ t @ render_attributes a cl @ ''/>''"
    unfolding containing_def elem.sel by (rule shape)
  show ?thesis
    unfolding appended shape using ends by (intro conjI refl)
qed

theorem C1_void_element_render_witness:
  "''br'' \<in> VOID_ELEMENTS
   \<and> render (Element (containing (new_Element ''br'') [Str ''bar''])) ''  '' False = ''  <br/>''
   \<and> suffix ''/>'' (render (Element (Elem ''br'' [] [HtmlStr ''bar''] [])) ''  '' False)"
proof -
  have v: "''br'' \<in> VOID_ELEMENTS"
    by (simp add: VOID_ELEMENTS_def)
  have attrs: "''  '' @ ''<'' @ ''br'' @ render_attributes [] [] @ ''/>'' = ''  <br/>''"
    by (simp add: render_attributes_def)
  note inst = C1_void_element_render [OF v, of "[]" _ "[]" "''  ''" False False]
  from inst [of "[]" "[Str ''bar'']"]
  have "render (Element (containing (new_Element ''br'') [Str ''bar''])) ''  '' False =
        ''  '' @ ''<'' @ ''br'' @ render_attributes [] [] @ ''/>''"
    unfolding new_Element_def by (elim conjE) (rule trans)
  moreover from inst [of "[HtmlStr ''bar'']" "[]"]
  have "suffix ''/>'' (render (Element (Elem ''br'' [] [HtmlStr ''bar''] [])) ''  '' False)"
    by (elim conjE)
  ultimately show ?thesis
    using v unfolding attrs by (intro conjI)
qed

text \<open>
  Claim C10. \<^verbatim>\<open>Element.render\<close> overwrites its \<^verbatim>\<open>inline\<close> parameter before reading it,
  so the output for \<^verbatim>\<open>inline=True\<close> and for \<^verbatim>\<open>inline=False\<close> is the same, for every
  element node and every indent.
\<close>

theorem C10_element_render_ignores_inline:
  "render (Element e) indent True = render (Element e) indent False"
  by (cases e) simp

theorem C10_element_render_ignores_inline_witness:
  "render (Element (containing (new_Element ''div'') [Renderable (Element (new_Element ''hr''))]))
     ''  '' True =
   render (Element (containing (new_Element ''div'') [Renderable (Element (new_Element ''hr''))]))
     ''  '' False"
  by (rule C10_element_render_ignores_inline)

text \<open>
  Claim C5, as the specification states it, fails for element nodes: the element
  \<^verbatim>\<open>Element("p").containing("bar")\<close> has a direct child that must be inline, yet its own
  \<^verbatim>\<open>must_be_inline\<close> is false.
\<close>

theorem C5_element_must_be_inline_counterexample:
  "list_ex must_be_inline (children (containing (new_Element ''p'') [Str ''bar'']))
   \<and> \<not> must_be_inline (Element (containing (new_Element ''p'') [Str ''bar'']))"
  by (simp add: containing_def new_Element_def)

text \<open>
  Claim C5, amended. \<^verbatim>\<open>must_be_inline\<close> is true for every text node; for a sequence node
  it is true exactly when some direct child must be inline; for an element node it is
  always false (the element's renderer looks at the children itself).
\<close>

theorem C5_must_be_inline:
  "must_be_inline (HtmlStr s)
   \<and> (must_be_inline (HtmlSequence cs) \<longleftrightarrow> (\<exists>c \<in> set cs. must_be_inline c))
   \<and> \<not> must_be_inline (Element e)"
  by (simp add: list_ex_iff)

theorem C5_must_be_inline_witness:
  "must_be_inline (HtmlStr ''bar'')
   \<and> must_be_inline (HtmlSequence [Element (new_Element ''p''), HtmlStr ''bar''])
   \<and> \<not> must_be_inline (HtmlSequence [Element (containing (new_Element ''p'') [Str ''bar''])])
   \<and> \<not> must_be_inline (Element (containing (new_Element ''p'') [Str ''bar'']))"
proof -
  note inst = C5_must_be_inline [of "''bar''" _ "containing (new_Element ''p'') [Str ''bar'']"]
  from inst [of "[Element (new_Element ''p''), HtmlStr ''bar'']"]
  have "must_be_inline (HtmlSequence [Element (new_Element ''p''), HtmlStr ''bar''])"
    by simp
  moreover
  from inst [of "[Element (containing (new_Element ''p'') [Str ''bar''])]"]
  have "\<not> must_be_inline (HtmlSequence [Element (containing (new_Element ''p'') [Str ''bar''])])"
    by simp
  ultimately show ?thesis
    using inst by simp
qed

lemma html_escape_Cons: "html_escape (c # s) = entity c @ html_escape s"
  by (simp add: html_escape_def str_replace_def entity_def)

lemma html_escape_entities: "html_escape s = concat (map entity s)"
  by (induction s) (simp add: html_escape_def str_replace_def, simp add: html_escape_Cons)

text \<open>
  Claim C9. \<^verbatim>\<open>HtmlStr.escape\<close> replaces every special character of its input by its
  entity (in particular the ampersand, the two angle brackets and the double quote), and
  it is not idempotent: escaping the payload of an escaped text node again gives a
  different node.
\<close>

theorem C9_escape_entities_not_idempotent:
  \<open>HtmlStr_escape s = HtmlStr (concat (map entity s))
   \<and> HtmlStr_escape ''&'' = HtmlStr ''&amp;''
   \<and> HtmlStr_escape ''<'' = HtmlStr ''&lt;''
   \<and> HtmlStr_escape ''>'' = HtmlStr ''&gt;''
   \<and> HtmlStr_escape ''"'' = HtmlStr ''&quot;''
   \<and> (\<exists>x y. HtmlStr_escape x = HtmlStr y \<and> HtmlStr_escape y \<noteq> HtmlStr_escape x)\<close>
proof -
  have "HtmlStr_escape ''&'' = HtmlStr ''&amp;''"
    and "HtmlStr_escape ''&amp;'' \<noteq> HtmlStr_escape ''&''"
    by (simp_all add: HtmlStr_escape_def html_escape_entities entity_def)
  then have "\<exists>x y. HtmlStr_escape x = HtmlStr y \<and> HtmlStr_escape y \<noteq> HtmlStr_escape x"
    by blast
  then show ?thesis
    by (simp add: HtmlStr_escape_def html_escape_entities entity_def)
qed

theorem C9_escape_entities_not_idempotent_witness:
  \<open>HtmlStr_escape ''a<b>&"c"'' = HtmlStr ''a&lt;b&gt;&amp;&quot;c&quot;''\<close>
proof -
  have "HtmlStr_escape ''a<b>&\"c\"'' = HtmlStr (concat (map entity ''a<b>&\"c\"''))"
    using C9_escape_entities_not_idempotent [of "''a<b>&\"c\"''"] by (elim conjE)
  then show ?thesis
    by (simp add: entity_def)
qed

lemma fold_rendered_attrs:
  \<open>concat (map (\<lambda>r. '' '' @ r)
     (fold (\<lambda>(name, v) acc.
              case v of
                ABool False \<Rightarrow> acc
              | ANone \<Rightarrow> acc
              | ABool True \<Rightarrow> acc @ [name]
              | AStr x \<Rightarrow> acc @ [name @ ''="'' @ html_escape x @ ''"''])
        attrs acc)) =
   concat (map (\<lambda>r. '' '' @ r) acc) @ concat (map spec_attribute attrs)\<close>
proof (induction attrs arbitrary: acc)
  case Nil
  show ?case by simp
next
  case (Cons nv attrs)
  obtain name v where nv: "nv = (name, v)"
    by (cases nv)
  show ?case
  proof (cases v)
    case (AStr x)
    with nv Cons show ?thesis by simp
  next
    case (ABool b)
    with nv Cons show ?thesis by (cases b) simp_all
  next
    case ANone
    with nv Cons show ?thesis by simp
  qed
qed

text \<open>
  Claim C2. The output of \<^verbatim>\<open>render_attributes\<close> is the class attribute (present exactly
  when the class set is non-empty) followed by the contributions of the attributes in
  map iteration order: a space and the bare name for \<^verbatim>\<open>True\<close>, nothing for \<^verbatim>\<open>False\<close> and
  \<^verbatim>\<open>None\<close>, and a space, the name and the escaped value in double quotes for a string.
\<close>

theorem C2_render_attributes:
  "render_attributes attrs cls = spec_class_attribute cls @ concat (map spec_attribute attrs)"
  unfolding render_attributes_def Let_def fold_rendered_attrs
  by (simp add: spec_class_attribute_def)

theorem C2_render_attributes_witness:
  \<open>render_attributes
     [(''disabled'', ABool True), (''hidden'', ABool False), (''id'', ANone),
      (''href'', AStr ''https://www.example.com/?s=test"test'')]
     [''a-b'', ''c''] =
   '' class="a-b c" disabled href="https://www.example.com/?s=test&quot;test"''\<close>
  unfolding C2_render_attributes
  by (simp add: spec_class_attribute_def html_escape_entities entity_def)

lemma render_text_child:
  assumes "HtmlStr s \<in> set cs"
  shows "render (Element (Elem t a cs cl)) indent inline =
         (if t \<in> VOID_ELEMENTS then indent @ ''<'' @ t @ render_attributes a cl @ ''/>''
          else (if t \<in> NO_INDENT_ELEMENTS then [] else indent)
               @ ''<'' @ t @ render_attributes a cl @ ''>''
               @ concat (map (\<lambda>c. render c [] True) cs) @ ''</'' @ t @ ''>'')"
proof -
  have "list_ex must_be_inline cs"
    using assms unfolding list_ex_iff by (intro bexI [of _ "HtmlStr s"]) simp_all
  then show ?thesis
    by (simp add: render_tag_def void_def void_not_no_indent)
qed

text \<open>
  Claim C6. An element with a text node among its direct children is laid out inline
  whatever the \<^verbatim>\<open>inline\<close> argument is: the output is the indent, the open tag, the
  children rendered inline one after the other, and the close tag, with no line break
  put between them (a void element is the self-closing tag alone). So the output has no
  newline unless the indent, the tag, an attribute or a child's own rendering has one.
  \<^verbatim>\<open>Element("p").containing("bar")\<close> rendered with an empty indent in block mode is
  \<^verbatim>\<open><p>bar</p>\<close>.
\<close>

theorem C6_text_child_renders_inline:
  "((\<exists>s. HtmlStr s \<in> set cs) \<longrightarrow>
      render (Element (Elem t a cs cl)) indent inline =
        (if t \<in> VOID_ELEMENTS then indent @ ''<'' @ t @ render_attributes a cl @ ''/>''
         else (if t \<in> NO_INDENT_ELEMENTS then [] else indent)
              @ ''<'' @ t @ render_attributes a cl @ ''>''
              @ concat (map (\<lambda>c. render c [] True) cs) @ ''</'' @ t @ ''>''))
   \<and> ((\<exists>s. HtmlStr s \<in> set cs)
        \<and> CHR ''\<newline>'' \<notin> set indent \<union> set t \<union> set (render_attributes a cl)
        \<and> (\<forall>c \<in> set cs. CHR ''\<newline>'' \<notin> set (render c [] True)) \<longrightarrow>
      CHR ''\<newline>'' \<notin> set (render (Element (Elem t a cs cl)) indent inline))
   \<and> render (Element (containing (new_Element ''p'') [Str ''bar''])) [] False = ''<p>bar</p>''"
proof (intro conjI impI)
  assume "\<exists>s. HtmlStr s \<in> set cs"
  then show "render (Element (Elem t a cs cl)) indent inline =
        (if t \<in> VOID_ELEMENTS then indent @ ''<'' @ t @ render_attributes a cl @ ''/>''
         else (if t \<in> NO_INDENT_ELEMENTS then [] else indent)
              @ ''<'' @ t @ render_attributes a cl @ ''>''
              @ concat (map (\<lambda>c. render c [] True) cs) @ ''</'' @ t @ ''>'')"
    using render_text_child by blast
next
  assume h: "(\<exists>s. HtmlStr s \<in> set cs)
        \<and> CHR ''\<newline>'' \<notin> set indent \<union> set t \<union> set (render_attributes a cl)
        \<and> (\<forall>c \<in> set cs. CHR ''\<newline>'' \<notin> set (render c [] True))"
  then obtain s where s: "HtmlStr s \<in> set cs"
    by blast
  from h have "CHR ''\<newline>'' \<notin> set (concat (map (\<lambda>c. render c [] True) cs))"
    by auto
  with h show "CHR ''\<newline>'' \<notin> set (render (Element (Elem t a cs cl)) indent inline)"
    unfolding render_text_child [OF s] by auto
next
  show "render (Element (containing (new_Element ''p'') [Str ''bar''])) [] False = ''<p>bar</p>''"
    by (simp add: containing_def new_Element_def render_tag_def render_attributes_def
        void_def VOID_ELEMENTS_def NO_INDENT_ELEMENTS_def)
qed

theorem C6_text_child_renders_inline_witness:
  "render (Element (Elem ''div'' [] [HtmlStr ''a'', Element (Elem ''p'' [] [HtmlStr ''b''] [])] []))
     ''  '' False = ''  <div>a<p>b</p></div>''
   \<and> CHR ''\<newline>'' \<notin> set (render (Element (Elem ''p'' [] [HtmlStr ''b''] [])) ''  '' False)"
proof -
  have attrs: "render_attributes [] [] = []"
    by (simp add: render_attributes_def)
  have tags: "''div'' \<notin> VOID_ELEMENTS" "''div'' \<notin> NO_INDENT_ELEMENTS"
    "''p'' \<notin> VOID_ELEMENTS" "''p'' \<notin> NO_INDENT_ELEMENTS"
    by (simp_all add: VOID_ELEMENTS_def NO_INDENT_ELEMENTS_def)
  have p: "render (Element (Elem ''p'' [] [HtmlStr ''b''] [])) [] True = ''<p>b</p>''"
    using C6_text_child_renders_inline [of "[HtmlStr ''b'']" "''p''" "[]" "[]" "[]" True]
    by (simp add: attrs tags)
  have "render (Element (Elem ''div'' [] [HtmlStr ''a'', Element (Elem ''p'' [] [HtmlStr ''b''] [])] []))
          ''  '' False =
        ''  '' @ ''<'' @ ''div'' @ [] @ ''>'' @
        concat (map (\<lambda>c. render c [] True)
                  [HtmlStr ''a'', Element (Elem ''p'' [] [HtmlStr ''b''] [])]) @
        ''</'' @ ''div'' @ ''>''"
    using C6_text_child_renders_inline
      [of "[HtmlStr ''a'', Element (Elem ''p'' [] [HtmlStr ''b''] [])]" "''div''" "[]" "[]"
          "''  ''" False]
    by (simp only: attrs tags if_False) simp
  also have "\<dots> = ''  <div>a<p>b</p></div>''"
    unfolding list.map concat.simps p by simp
  finally have div: "render (Element (Elem ''div'' [] [HtmlStr ''a'',
      Element (Elem ''p'' [] [HtmlStr ''b''] [])] [])) ''  '' False = ''  <div>a<p>b</p></div>''" .
  have "CHR ''\<newline>'' \<notin> set (render (Element (Elem ''p'' [] [HtmlStr ''b''] [])) ''  '' False)"
    using C6_text_child_renders_inline [of "[HtmlStr ''b'']" "''p''" "[]" "[]" "''  ''" False]
    by (simp add: attrs)
  with div show ?thesis
    by (intro conjI)
qed

text \<open>
  What \<^verbatim>\<open>render_tag\<close> alone does for a tag of the no-indent set: the indent becomes the
  empty string and the inline flag true, so the contents it is handed stand verbatim
  between the open and the close tag.
\<close>

lemma render_tag_no_indent:
  assumes "t \<in> NO_INDENT_ELEMENTS"
  shows "render_tag t attrs cls cont indent inline = render_tag t attrs cls cont [] True"
    and "render_tag t attrs cls (Some c) indent inline =
           ''<'' @ t @ render_attributes attrs cls @ ''>'' @ c @ ''</'' @ t @ ''>''"
  using assms by (simp_all add: render_tag_def)

lemma render_tag_pre_example:
  "render_tag ''pre'' [] [] (Some ''  2\<newline> 1\<newline>0'') indent inline = ''<pre>  2\<newline> 1\<newline>0</pre>''"
  by (simp add: render_tag_def NO_INDENT_ELEMENTS_def render_attributes_def)

text \<open>
  \<^verbatim>\<open>Element.render\<close> renders the children before it calls \<^verbatim>\<open>render_tag\<close>. When no child
  of a no-indent element must be inline, the children are laid out in block mode at the
  caller's indent plus two spaces, and only then wrapped by \<^verbatim>\<open>render_tag\<close>.
\<close>

lemma render_no_indent_block_children:
  assumes "t \<in> NO_INDENT_ELEMENTS" and "\<not> list_ex must_be_inline cs"
  shows "render (Element (Elem t a cs cl)) indent inline =
         ''<'' @ t @ render_attributes a cl @ ''>''
         @ join ''\<newline>'' (map (\<lambda>c. render c (indent @ ''  '') False) cs)
         @ ''</'' @ t @ ''>''"
proof -
  from assms(1) have "t \<notin> VOID_ELEMENTS"
    using void_not_no_indent by blast
  with assms show ?thesis
    by (simp add: render_tag_def void_def)
qed

text \<open>
  Claim C7 on the code. The claim says that rendering a tag of the no-indent set ignores
  the caller's indent and adds no indentation to the content. \<^verbatim>\<open>render_tag\<close> does so for
  the contents it is given, and a \<^verbatim>\<open>pre\<close> element holding the text \<^verbatim>\<open>"  2\n 1\n0"\<close> renders
  as \<^verbatim>\<open><pre>  2\n 1\n0</pre>\<close> for every indent and flag. But a \<^verbatim>\<open>pre\<close> element whose
  children are all elements gets the caller's indent plus two spaces written before each
  child: \<^verbatim>\<open>Element("pre").containing(Element("hr"))\<close> renders as
  \<^verbatim>\<open><pre>      <hr/></pre>\<close> at an indent of four spaces and as \<^verbatim>\<open><pre>  <hr/></pre>\<close> at
  the empty indent, and likewise for a \<^verbatim>\<open>code\<close> child holding text.
\<close>

theorem C7_no_indent_element_children_indented:
  "render (Element (containing (new_Element ''pre'')
             [Renderable (Element (new_Element ''hr''))])) ''    '' False =
     ''<pre>      <hr/></pre>''
   \<and> render (Element (containing (new_Element ''pre'')
             [Renderable (Element (new_Element ''hr''))])) [] False =
     ''<pre>  <hr/></pre>''
   \<and> render (Element (containing (new_Element ''pre'')
             [Renderable (Element (new_Element ''hr''))])) ''    '' False \<noteq>
     render (Element (containing (new_Element ''pre'')
             [Renderable (Element (new_Element ''hr''))])) [] False
   \<and> render (Element (containing (new_Element ''pre'')
             [Renderable (Element (containing (new_Element ''code'') [Str ''x'']))]))
        ''    '' False =
     ''<pre>      <code>x</code></pre>''
   \<and> render (Element (containing (new_Element ''pre'') [Str ''  2\<newline> 1\<newline>0''])) ''    '' False =
     ''<pre>  2\<newline> 1\<newline>0</pre>''"
  by (simp add: render_tag_def NO_INDENT_ELEMENTS_def render_attributes_def
      containing_def new_Element_def void_def VOID_ELEMENTS_def)

lemma fullmatch_iff_spec: "DATA_KEY_PATTERN_fullmatch key = spec_valid_data_key key"
  by (cases key) (auto simp: DATA_KEY_PATTERN_fullmatch_def spec_valid_data_key_def)

lemma check_data_keys_None:
  "check_data_keys data = None \<longleftrightarrow> (\<forall>key \<in> set (map fst data). DATA_KEY_PATTERN_fullmatch key)"
  by (induction data rule: check_data_keys.induct) auto

lemma map_of_dict_set: "map_of (dict_set d k v) = (map_of d)(k \<mapsto> v)"
  by (induction d) (auto simp: fun_eq_iff)

lemma map_fst_dict_set:
  "map fst (dict_set d k v) = (if k \<in> set (map fst d) then map fst d else map fst d @ [k])"
  by (induction d) force+

lemma map_of_dict_update_other:
  "k \<notin> set (map fst pairs) \<Longrightarrow> map_of (dict_update d pairs) k = map_of d k"
  unfolding dict_update_def
  by (induction pairs arbitrary: d) (auto simp: map_of_dict_set)

lemma map_of_dict_update_entry:
  "distinct (map fst pairs) \<Longrightarrow> (k, v) \<in> set pairs \<Longrightarrow> map_of (dict_update d pairs) k = Some v"
proof (induction pairs arbitrary: d)
  case Nil
  then show ?case by simp
next
  case (Cons p pairs)
  obtain k0 v0 where p: "p = (k0, v0)" by (cases p)
  have step: "dict_update d (p # pairs) = dict_update (dict_set d k0 v0) pairs"
    by (simp add: dict_update_def p)
  show ?case
  proof (cases "(k, v) = (k0, v0)")
    case True
    with Cons.prems p have "k \<notin> set (map fst pairs)" by auto
    then show ?thesis
      using True by (simp add: step map_of_dict_update_other map_of_dict_set)
  next
    case False
    with Cons.prems p have "(k, v) \<in> set pairs" "distinct (map fst pairs)" by auto
    then show ?thesis
      unfolding step by (intro Cons.IH)
  qed
qed

text \<open>
  Claim C8. \<^verbatim>\<open>with_data\<close> raises \<^verbatim>\<open>ValueError\<close> exactly when some key of the map does
  not consist of lowercase letters and hyphens only, starting with a letter. When every
  key is valid it returns the element with, for every entry, the attribute
  \<^verbatim>\<open>data-<key>\<close> set to the entry's value, all other attributes and the other fields as
  they were. \<^verbatim>\<open>with_data({"foo-bar": "x"})\<close> sets \<^verbatim>\<open>data-foo-bar="x"\<close>, and
  \<^verbatim>\<open>with_data({"Foo": "x"})\<close> raises.
\<close>

theorem C8_with_data:
  "((\<exists>err. with_data e data = Inl err) \<longleftrightarrow> (\<exists>key \<in> set (map fst data). \<not> spec_valid_data_key key))
   \<and> ((\<forall>key \<in> set (map fst data). spec_valid_data_key key) \<and> distinct (map fst data) \<longrightarrow>
        (\<exists>e'. with_data e data = Inr e'
           \<and> type e' = type e \<and> children e' = children e \<and> classes e' = classes e
           \<and> (\<forall>(key, v) \<in> set data. map_of (attributes e') (''data-'' @ key) = Some (AStr v))
           \<and> (\<forall>k. k \<notin> set (map (\<lambda>(key, v). ''data-'' @ key) data) \<longrightarrow>
                 map_of (attributes e') k = map_of (attributes e) k)))
   \<and> with_data (new_Element ''div'') [(''foo-bar'', ''x'')] =
       Inr (Elem ''div'' [(''data-foo-bar'', AStr ''x'')] [] [])
   \<and> render_attributes [(''data-foo-bar'', AStr ''x'')] [] = '' data-foo-bar=\"x\"''
   \<and> with_data (new_Element ''div'') [(''Foo'', ''x'')] = Inl (ValueError ''Foo'')"
proof (intro conjI impI)
  show "(\<exists>err. with_data e data = Inl err) \<longleftrightarrow> (\<exists>key \<in> set (map fst data). \<not> spec_valid_data_key key)"
    using check_data_keys_None [of data]
    by (auto simp: with_data_def fullmatch_iff_spec split: option.splits)
next
  assume h: "(\<forall>key \<in> set (map fst data). spec_valid_data_key key) \<and> distinct (map fst data)"
  let ?pairs = "map (\<lambda>(key, v). (''data-'' @ key, AStr v)) data"
  let ?e' = "Elem (type e) (dict_update (attributes e) ?pairs) (children e) (classes e)"
  have fsts: "map fst ?pairs = map (\<lambda>key. ''data-'' @ key) (map fst data)"
    by (induction data) auto
  have "inj (\<lambda>key. ''data-'' @ key)"
    by (simp add: inj_def)
  with h have dist: "distinct (map fst ?pairs)"
    unfolding fsts by (simp add: distinct_map inj_on_def)
  from h have ok: "check_data_keys data = None"
    by (simp add: check_data_keys_None fullmatch_iff_spec)
  then have res: "with_data e data = Inr ?e'"
    by (simp add: with_data_def)
  have entries: "\<forall>(key, v) \<in> set data. map_of (attributes ?e') (''data-'' @ key) = Some (AStr v)"
  proof (clarify)
    fix key v assume "(key, v) \<in> set data"
    then have "(''data-'' @ key, AStr v) \<in> set ?pairs"
      by force
    from map_of_dict_update_entry [OF dist this]
    show "map_of (attributes ?e') (''data-'' @ key) = Some (AStr v)"
      by simp
  qed
  have others: "\<forall>k. k \<notin> set (map (\<lambda>(key, v). ''data-'' @ key) data) \<longrightarrow>
                 map_of (attributes ?e') k = map_of (attributes e) k"
  proof (intro allI impI)
    fix k assume "k \<notin> set (map (\<lambda>(key, v). ''data-'' @ key) data)"
    then have "k \<notin> set (map fst ?pairs)"
      by (auto simp: image_iff)
    then show "map_of (attributes ?e') k = map_of (attributes e) k"
      by (simp add: map_of_dict_update_other)
  qed
  show "\<exists>e'. with_data e data = Inr e'
           \<and> type e' = type e \<and> children e' = children e \<and> classes e' = classes e
           \<and> (\<forall>(key, v) \<in> set data. map_of (attributes e') (''data-'' @ key) = Some (AStr v))
           \<and> (\<forall>k. k \<notin> set (map (\<lambda>(key, v). ''data-'' @ key) data) \<longrightarrow>
                 map_of (attributes e') k = map_of (attributes e) k)"
    using res entries others by (intro exI [of _ ?e']) simp
next
  show "with_data (new_Element ''div'') [(''foo-bar'', ''x'')] =
       Inr (Elem ''div'' [(''data-foo-bar'', AStr ''x'')] [] [])"
    by (simp add: with_data_def new_Element_def DATA_KEY_PATTERN_fullmatch_def in_a_z_def
        dict_update_def)
next
  show "render_attributes [(''data-foo-bar'', AStr ''x'')] [] = '' data-foo-bar=\"x\"''"
    by (simp add: render_attributes_def html_escape_entities entity_def)
next
  show "with_data (new_Element ''div'') [(''Foo'', ''x'')] = Inl (ValueError ''Foo'')"
    by (simp add: with_data_def new_Element_def DATA_KEY_PATTERN_fullmatch_def in_a_z_def)
qed


theorem C8_with_data_witness:
  "(\<exists>e'. with_data (Elem ''div'' [(''href'', AStr ''u'')] [] [])
            [(''foo-bar'', ''x''), (''id'', ''7'')] = Inr e'
         \<and> map_of (attributes e') ''data-foo-bar'' = Some (AStr ''x'')
         \<and> map_of (attributes e') ''data-id'' = Some (AStr ''7'')
         \<and> map_of (attributes e') ''href'' = Some (AStr ''u''))
   \<and> (\<exists>err. with_data (new_Element ''div'') [(''ok'', ''1''), (''Foo'', ''x'')] = Inl err)"
proof -
  let ?e = "Elem ''div'' [(''href'', AStr ''u'')] [] [] :: node elem"
  let ?data = "[(''foo-bar'', ''x''), (''id'', ''7'')]"
  have valid: "(\<forall>key \<in> set (map fst ?data). spec_valid_data_key key) \<and> distinct (map fst ?data)"
    by (simp add: spec_valid_data_key_def in_a_z_def)
  from C8_with_data [of ?e ?data] valid
  obtain e' where res: "with_data ?e ?data = Inr e'"
    and entries: "\<forall>(key, v) \<in> set ?data. map_of (attributes e') (''data-'' @ key) = Some (AStr v)"
    and others: "\<forall>k. k \<notin> set (map (\<lambda>(key, v). ''data-'' @ key) ?data) \<longrightarrow>
                   map_of (attributes e') k = map_of (attributes ?e) k"
    by blast
  from entries have "map_of (attributes e') ''data-foo-bar'' = Some (AStr ''x'')"
    and "map_of (attributes e') ''data-id'' = Some (AStr ''7'')"
    by simp_all
  moreover from others have "map_of (attributes e') ''href'' = Some (AStr ''u'')"
    by simp
  ultimately have first: "\<exists>e'. with_data ?e ?data = Inr e'
         \<and> map_of (attributes e') ''data-foo-bar'' = Some (AStr ''x'')
         \<and> map_of (attributes e') ''data-id'' = Some (AStr ''7'')
         \<and> map_of (attributes e') ''href'' = Some (AStr ''u'')"
    using res by blast
  let ?bad = "[(''ok'', ''1''), (''Foo'', ''x'')]"
  have "\<exists>key \<in> set (map fst ?bad). \<not> spec_valid_data_key key"
    by (simp add: spec_valid_data_key_def in_a_z_def)
  with C8_with_data [of "new_Element ''div''" ?bad]
  have "\<exists>err. with_data (new_Element ''div'') ?bad = Inl err"
    by blast
  with first show ?thesis
    by (intro conjI)
qed

lemma one_entry:
  "distinct (map fst d) \<Longrightarrow> k \<in> set (map fst d) \<Longrightarrow> length (filter (\<lambda>p. fst p = k) d) = 1"
proof (induction d)
  case Nil
  then show ?case by simp
next
  case (Cons p d)
  show ?case
  proof (cases "fst p = k")
    case True
    with Cons.prems have "k \<notin> fst ` set d"
      by simp
    then have "\<forall>q \<in> set d. fst q \<noteq> k"
      by blast
    then have "filter (\<lambda>p. fst p = k) d = []"
      by (simp add: filter_empty_conv)
    with True show ?thesis by simp
  next
    case False
    with Cons show ?thesis by simp
  qed
qed

lemma style_duplicate:
  assumes dup: "derived_classname f \<in> set (map fst (styles r))"
    and dist: "distinct (map fst (styles r))"
  shows "fst (style r css f) = [Duplicate_classname (derived_classname f)]"
    and "map fst (styles (snd (style r css f))) = map fst (styles r)"
    and "length (filter (\<lambda>p. fst p = derived_classname f) (styles (snd (style r css f)))) = 1"
    and "map_of (styles (snd (style r (Some c) f))) (derived_classname f) = Some (strip (dedent c))"
    and "n \<noteq> derived_classname f \<Longrightarrow>
           map_of (styles (snd (style r (Some c) f))) n = map_of (styles r) n"
    and "snd (style r None f) = r"
proof -
  show "fst (style r css f) = [Duplicate_classname (derived_classname f)]"
    using dup by (simp add: style_def Let_def)
  show keys: "map fst (styles (snd (style r css f))) = map fst (styles r)"
    using dup by (cases css) (simp_all add: style_def Let_def map_fst_dict_set)
  from dist dup keys
  show "length (filter (\<lambda>p. fst p = derived_classname f) (styles (snd (style r css f)))) = 1"
    by (intro one_entry) simp_all
  show "map_of (styles (snd (style r (Some c) f))) (derived_classname f) = Some (strip (dedent c))"
    by (simp add: style_def Let_def map_of_dict_set)
  show "map_of (styles (snd (style r (Some c) f))) n = map_of (styles r) n"
    if "n \<noteq> derived_classname f"
    using that by (simp add: style_def Let_def map_of_dict_set)
  show "snd (style r None f) = r"
    by (simp add: style_def Let_def)
qed

text \<open>
  Claim C4, as the specification states it, fails: after \<^verbatim>\<open>demo_box\<close> is registered with
  one CSS body, registering \<^verbatim>\<open>demo-box\<close> with another body logs the duplicate-name
  warning and then stores the new body under \<^verbatim>\<open>demo-box\<close>; the stylesheet shows the
  second body.
\<close>

theorem C4_first_registration_wins_counterexample:
  "styles (snd (style new_Registry (Some ''color: red;'') ''demo_box'')) =
     [(''demo-box'', ''color: red;'')]
   \<and> style (snd (style new_Registry (Some ''color: red;'') ''demo_box''))
        (Some ''color: blue;'') ''demo-box'' =
      ([Duplicate_classname ''demo-box''], \<lparr>styles = [(''demo-box'', ''color: blue;'')]\<rparr>)
   \<and> render_stylesheet (snd (style (snd (style new_Registry (Some ''color: red;'') ''demo_box''))
        (Some ''color: blue;'') ''demo-box'')) = ''.demo-box {\<newline>  color: blue;\<newline>}''"
  by (simp add: style_def Let_def new_Registry_def derived_classname_def removesuffix_def str_replace_def
      dedent_def strip_def is_space_def is_blank_def render_stylesheet_def textwrap_indent_def
      is_linebreak_def)

text \<open>
  Claim C4, amended. A registration whose derived class name is already registered logs
  one duplicate-name warning (a registration under a new name logs none). The class
  names of the registry and their order stay as they were, so the stylesheet has exactly
  one block for that class name. When the call is given a CSS body, that body (dedented
  and stripped) replaces the stored one and every other class keeps its body: the last
  registration with a CSS body wins. A call without a CSS body leaves the registry as it
  was.
\<close>

theorem C4_duplicate_registration:
  "(derived_classname f \<notin> set (map fst (styles r)) \<longrightarrow> fst (style r css f) = [])
   \<and> (derived_classname f \<in> set (map fst (styles r)) \<and> distinct (map fst (styles r)) \<longrightarrow>
        fst (style r css f) = [Duplicate_classname (derived_classname f)]
        \<and> map fst (styles (snd (style r css f))) = map fst (styles r)
        \<and> length (filter (\<lambda>p. fst p = derived_classname f) (styles (snd (style r css f)))) = 1
        \<and> map_of (styles (snd (style r (Some c) f))) (derived_classname f) = Some (strip (dedent c))
        \<and> (\<forall>n. n \<noteq> derived_classname f \<longrightarrow>
              map_of (styles (snd (style r (Some c) f))) n = map_of (styles r) n)
        \<and> snd (style r None f) = r)"
  using style_duplicate [of f r]
  by (simp add: style_def Let_def)

theorem C4_duplicate_registration_witness:
  "fst (style \<lparr>styles = [(''page-title'', ''a''), (''demo-box'', ''color: red;'')]\<rparr>
          (Some ''  color: blue;'') ''demo_box_'') = [Duplicate_classname ''demo-box'']
   \<and> map fst (styles (snd (style
          \<lparr>styles = [(''page-title'', ''a''), (''demo-box'', ''color: red;'')]\<rparr>
          (Some ''  color: blue;'') ''demo_box_''))) = [''page-title'', ''demo-box'']
   \<and> map_of (styles (snd (style
          \<lparr>styles = [(''page-title'', ''a''), (''demo-box'', ''color: red;'')]\<rparr>
          (Some ''  color: blue;'') ''demo_box_''))) ''demo-box'' = Some ''color: blue;''"
proof -
  let ?r = "\<lparr>styles = [(''page-title'', ''a''), (''demo-box'', ''color: red;'')]\<rparr>"
  have name: "derived_classname ''demo_box_'' = ''demo-box''"
    by (simp add: derived_classname_def removesuffix_def str_replace_def)
  have body: "strip (dedent ''  color: blue;'') = ''color: blue;''"
    by (simp add: dedent_def strip_def is_space_def is_blank_def)
  have dup: "derived_classname ''demo_box_'' \<in> set (map fst (styles ?r))
             \<and> distinct (map fst (styles ?r))"
    by (simp add: name)
  from C4_duplicate_registration
         [of "''demo_box_''" ?r "Some ''  color: blue;''" "''  color: blue;''"] dup
  have "fst (style ?r (Some ''  color: blue;'') ''demo_box_'') =
          [Duplicate_classname (derived_classname ''demo_box_'')]"
    and "map fst (styles (snd (style ?r (Some ''  color: blue;'') ''demo_box_''))) =
          map fst (styles ?r)"
    and "map_of (styles (snd (style ?r (Some ''  color: blue;'') ''demo_box_'')))
           (derived_classname ''demo_box_'') = Some (strip (dedent ''  color: blue;''))"
    by blast+
  then show ?thesis
    unfolding name body by simp
qed

text \<open>
  Claim C3 on the code. With the body \<^verbatim>\<open>& > h2 { font-size: 1.5em; }\<close> registered for
  the builder \<^verbatim>\<open>demo_box\<close>, \<^verbatim>\<open>render_stylesheet\<close> gives the block
  \<^verbatim>\<open>.demo-box {\<close>, the body indented by two spaces with its ampersand still in place,
  and \<^verbatim>\<open>}\<close>; the text \<^verbatim>\<open>.demo-box > h2 { font-size: 1.5em; }\<close> does not occur in it.
\<close>

theorem C3_render_stylesheet_keeps_ampersand:
  "render_stylesheet (snd (style new_Registry (Some ''& > h2 { font-size: 1.5em; }'') ''demo_box'')) =
     ''.demo-box {\<newline>  & > h2 { font-size: 1.5em; }\<newline>}''
   \<and> \<not> sublist ''.demo-box > h2 { font-size: 1.5em; }''
         (render_stylesheet
            (snd (style new_Registry (Some ''& > h2 { font-size: 1.5em; }'') ''demo_box'')))"
proof -
  have out: "render_stylesheet
      (snd (style new_Registry (Some ''& > h2 { font-size: 1.5em; }'') ''demo_box'')) =
     ''.demo-box {\<newline>  & > h2 { font-size: 1.5em; }\<newline>}''"
    by (simp add: style_def Let_def new_Registry_def derived_classname_def removesuffix_def str_replace_def
      dedent_def strip_def is_space_def is_blank_def render_stylesheet_def textwrap_indent_def
      is_linebreak_def)
  have "\<not> sublist ''.demo-box > h2 { font-size: 1.5em; }''
          ''.demo-box {\<newline>  & > h2 { font-size: 1.5em; }\<newline>}''"
    by (simp add: sublist_Cons_right)
  with out show ?thesis
    by simp
qed

end
